theory Spec2Isabelle
  imports Main
begin

section \<open>JavaScript strings and numbers used by the client\<close>

text \<open>
  \<^verbatim>\<open>String.prototype.includes\<close>: the argument occurs somewhere in the receiver as a
  contiguous run of characters.
\<close>

fun startsWith :: "string \<Rightarrow> string \<Rightarrow> bool" where
  "startsWith s [] = True"
| "startsWith [] (c # cs) = False"
| "startsWith (x # xs) (c # cs) = (x = c \<and> startsWith xs cs)"

fun includes_str :: "string \<Rightarrow> string \<Rightarrow> bool" where
  "includes_str [] sub = (sub = [])"
| "includes_str (x # xs) sub = (startsWith (x # xs) sub \<or> includes_str xs sub)"

text \<open>
  The decimal text of a non-negative integer, as a template literal
  \<^verbatim>\<open>`${response.status}`\<close> renders it.
\<close>

definition digit_char :: "nat \<Rightarrow> char" where
  "digit_char d = ''0123456789'' ! d"

function show_nat :: "nat \<Rightarrow> string" where
  "show_nat n = (if n < 10 then [digit_char n] else show_nat (n div 10) @ [digit_char (n mod 10)])"
  by pat_completeness auto
termination
  by (relation "measure (\<lambda>n. n)") auto

declare show_nat.simps [simp del]

text \<open>A text made of decimal digits only.\<close>

definition decimal :: "string \<Rightarrow> bool" where
  "decimal s = (\<forall>c \<in> set s. \<exists>d < 10. c = digit_char d)"

text \<open>
  A JavaScript number as the client computes delays. Every number that arises here is an
  integer-valued double, \<^verbatim>\<open>NaN\<close> or an infinity; \<open>Num\<close> holds the integer (the sign of zero is
  not kept).
\<close>

datatype jsnum = Num int | NaN | PosInfinity | NegInfinity

text \<open>The number of binary digits of a positive integer.\<close>

function bit_length :: "int \<Rightarrow> nat" where
  "bit_length a = (if a \<le> 0 then 0 else Suc (bit_length (a div 2)))"
  by pat_completeness auto
termination
  by (relation "measure (\<lambda>a. nat a)") auto

declare bit_length.simps [simp del]

text \<open>
  The double nearest to an integer (IEEE 754 binary64, round to nearest, ties to even): the
  integer is cut to its 53 leading binary digits \<open>q\<close>, the digits cut off (\<open>r\<close>, below
  \<open>2 ^ e\<close>) round \<open>q\<close> up when they are more than half of \<open>2 ^ e\<close>, or exactly half with \<open>q\<close>
  odd; a result of \<open>2 ^ 1024\<close> or more is an infinity. Integers below \<open>2 ^ 53\<close> in absolute
  value are kept as they are.
\<close>

definition to_double :: "int \<Rightarrow> jsnum" where
  "to_double x =
     (let a = \<bar>x\<bar>;
          e = bit_length a - 53;
          q = a div 2 ^ e;
          r = a mod 2 ^ e;
          q' = (if 2 * r > 2 ^ e \<or> (2 * r = 2 ^ e \<and> odd q) then q + 1 else q);
          m = q' * 2 ^ e
      in if m \<ge> 2 ^ 1024 then (if x < 0 then NegInfinity else PosInfinity)
         else Num (if x < 0 then - m else m))"

text \<open>\<^verbatim>\<open>x * 1000\<close> in double arithmetic: the exact product, rounded to the nearest double.\<close>

fun times_1000 :: "jsnum \<Rightarrow> jsnum" where
  "times_1000 (Num n) = to_double (n * 1000)"
| "times_1000 NaN = NaN"
| "times_1000 PosInfinity = PosInfinity"
| "times_1000 NegInfinity = NegInfinity"

text \<open>\<^verbatim>\<open>Math.pow(2, attempt) * 1000\<close>, with the power of two as every engine returns it (the
  nearest double, an infinity from \<open>2 ^ 1024\<close> on).\<close>

definition exponential_delay :: "nat \<Rightarrow> jsnum" where
  "exponential_delay attempt = times_1000 (to_double (2 ^ attempt))"

text \<open>
  \<^verbatim>\<open>parseInt(text)\<close> with no radix argument: leading white space is skipped, one sign is
  read, the prefix \<^verbatim>\<open>0x\<close> or \<^verbatim>\<open>0X\<close> selects radix 16 (radix 10 otherwise), and the longest run of
  digits of that radix is the value, returned as the nearest double. With no digit the result
  is \<^verbatim>\<open>NaN\<close>. The text is the value of a response header, whose characters are code points
  up to 255, so the white space of the language is the six ASCII characters and the no-break
  space. Beyond 20 significant decimal digits the standard lets an engine read the later
  digits as 0; the model reads them all.
\<close>

definition is_space :: "char \<Rightarrow> bool" where
  "is_space c = (c \<in> set [CHR '' '', CHR 0x09, CHR 0x0A, CHR 0x0B, CHR 0x0C, CHR 0x0D, CHR 0xA0])"

definition digit_value :: "nat \<Rightarrow> char \<Rightarrow> nat option" where
  "digit_value radix c =
     (case map_of (zip ''0123456789abcdef'' [0 ..< 16] @ zip ''ABCDEF'' [10 ..< 16]) c of
        None \<Rightarrow> None
      | Some d \<Rightarrow> if d < radix then Some d else None)"

fun read_digits :: "nat \<Rightarrow> string \<Rightarrow> nat option \<Rightarrow> nat option" where
  "read_digits radix [] acc = acc"
| "read_digits radix (c # cs) acc =
     (case digit_value radix c of
        None \<Rightarrow> acc
      | Some d \<Rightarrow> read_digits radix cs (Some (radix * (case acc of None \<Rightarrow> 0 | Some a \<Rightarrow> a) + d)))"

definition parseInt :: "string \<Rightarrow> jsnum" where
  "parseInt text =
     (let s1 = dropWhile is_space text;
          (sign, s2) = (case s1 of
                          c # cs \<Rightarrow> if c = CHR ''-'' then (- 1, cs)
                                    else if c = CHR ''+'' then (1, cs) else (1, s1)
                        | [] \<Rightarrow> (1::int, s1));
          (radix, s3) = (if startsWith s2 ''0x'' \<or> startsWith s2 ''0X''
                         then (16, drop 2 s2) else (10, s2))
      in case read_digits radix s3 None of
           None \<Rightarrow> NaN
         | Some n \<Rightarrow> to_double (sign * int n))"

section \<open>The browser as the client sees it\<close>

text \<open>An error object: \<^verbatim>\<open>error.name\<close>, \<^verbatim>\<open>error.message\<close> and the optional \<^verbatim>\<open>error.code\<close>.\<close>

record js_error =
  name :: string
  message :: string
  code :: "string option"

definition Error :: "string \<Rightarrow> js_error" where
  "Error msg = \<lparr>name = ''Error'', message = msg, code = None\<rparr>"

text \<open>
  The options object handed to \<^verbatim>\<open>fetch\<close>. Only the fields this client reads or writes are
  kept; \<open>http_method\<close> is its \<^verbatim>\<open>method\<close> property and \<open>headers\<close> is an ordered dictionary.
\<close>

record request_init =
  http_method :: "string option"
  body :: "string option"
  headers :: "(string \<times> string) list option"
  credentials :: "string option"

text \<open>
  A parsed response body. \<open>JsonNull\<close> is the JSON text \<^verbatim>\<open>null\<close>, on which reading
  \<^verbatim>\<open>data.message\<close> raises a TypeError; any other value carries its \<^verbatim>\<open>message\<close> property when
  that property is a string (\<open>None\<close> when absent) and the rest of the value.
\<close>

datatype 'p json = JsonNull | JsonValue "string option" 'p

datatype 'p json_result = Unparseable | Parsed "'p json"

record 'p response =
  status :: nat
  statusText :: string
  retry_after :: "string option"
  json_body :: "'p json_result"

text \<open>\<^verbatim>\<open>response.ok\<close> of the Fetch standard: the status is in the range 200 to 299.\<close>

definition ok :: "'p response \<Rightarrow> bool" where
  "ok r = (200 \<le> status r \<and> status r \<le> 299)"

datatype 'p fetch_result = Rejects js_error | Responds "'p response"

text \<open>Effects of the client in the order they happen. The model follows the statements of
  the functions; what the page load started by an assignment to \<^verbatim>\<open>window.location.href\<close> later
  does to a script that is still waiting is outside it.\<close>

datatype event =
    FetchCall string request_init
  | RemoveItem string
  | SetHref string
  | SetTimeout jsnum
  | ConsoleError js_error

record browser =
  localStorage :: "string \<rightharpoonup> string"
  href :: string
  events :: "event list"

definition emit :: "event \<Rightarrow> browser \<Rightarrow> browser" where
  "emit e w = w\<lparr>events := events w @ [e]\<rparr>"

definition removeItem :: "string \<Rightarrow> browser \<Rightarrow> browser" where
  "removeItem k w = emit (RemoveItem k) (w\<lparr>localStorage := (localStorage w)(k := None)\<rparr>)"

definition set_href :: "string \<Rightarrow> browser \<Rightarrow> browser" where
  "set_href u w = emit (SetHref u) (w\<lparr>href := u\<rparr>)"

text \<open>\<^verbatim>\<open>await new Promise(resolve => setTimeout(resolve, delay))\<close>\<close>

definition sleep :: "jsnum \<Rightarrow> browser \<Rightarrow> browser" where
  "sleep d w = emit (SetTimeout d) w"

definition console_error :: "js_error \<Rightarrow> browser \<Rightarrow> browser" where
  "console_error e w = emit (ConsoleError e) w"

section \<open>APIClient\<close>

record api_client =
  baseURL :: string

definition getAuthHeaders :: "(string \<times> string) list" where
  "getAuthHeaders = [(''Content-Type'', ''application/json'')]"

text \<open>Object spread \<^verbatim>\<open>{...a, ...b}\<close> on ordered dictionaries: a key of \<open>b\<close> overwrites in place
  or is appended.\<close>

fun assign :: "string \<Rightarrow> string \<Rightarrow> (string \<times> string) list \<Rightarrow> (string \<times> string) list" where
  "assign k v [] = [(k, v)]"
| "assign k v ((k', v') # kvs) = (if k = k' then (k, v) # kvs else (k', v') # assign k v kvs)"

definition spread :: "(string \<times> string) list \<Rightarrow> (string \<times> string) list \<Rightarrow> (string \<times> string) list" where
  "spread a b = foldl (\<lambda>acc (k, v). assign k v acc) a b"

text \<open>The \<^verbatim>\<open>config\<close> object built at the start of \<^verbatim>\<open>request\<close>.\<close>

definition request_config :: "request_init \<Rightarrow> request_init" where
  "request_config options =
     options\<lparr>headers := Some (spread getAuthHeaders (case headers options of None \<Rightarrow> [] | Some h \<Rightarrow> h)),
             credentials := Some ''include''\<rparr>"

text \<open>How one pass through the loop body ends, and how the call ends.
  \<open>ReturnedUndefined\<close> is the loop running to its end without a \<^verbatim>\<open>return\<close> or \<^verbatim>\<open>throw\<close>.\<close>

datatype 'p outcome = Returned "'p json" | Threw js_error | ReturnedUndefined

datatype 'p step = Continue | Exit "'p outcome"

definition http_message :: "'p response \<Rightarrow> string" where
  "http_message r = ''HTTP '' @ show_nat (status r) @ '': '' @ statusText r"

text \<open>\<^verbatim>\<open>data.message || fallback\<close>: the empty string is falsy.\<close>

definition message_or :: "string option \<Rightarrow> string \<Rightarrow> string" where
  "message_or m fallback = (case m of None \<Rightarrow> fallback | Some s \<Rightarrow> if s = [] then fallback else s)"

text \<open>The TypeError of reading a property of \<^verbatim>\<open>null\<close> (V8's wording; no engine's wording
  contains \<^verbatim>\<open>fetch\<close> or \<^verbatim>\<open>HTTP 4\<close>).\<close>

definition null_property_error :: js_error where
  "null_property_error =
     \<lparr>name = ''TypeError'',
      message = ''Cannot read properties of null (reading 'message')'',
      code = None\<rparr>"

text \<open>The delay of the 429 branch:
  \<^verbatim>\<open>retryAfter ? parseInt(retryAfter) * 1000 : Math.pow(2, attempt) * 1000\<close>.\<close>

definition rate_limit_delay :: "string option \<Rightarrow> nat \<Rightarrow> jsnum" where
  "rate_limit_delay retryAfter attempt =
     (case retryAfter of
        None \<Rightarrow> exponential_delay attempt
      | Some text \<Rightarrow> if text = [] then exponential_delay attempt else times_1000 (parseInt text))"

text \<open>The \<^verbatim>\<open>try\<close> block after \<^verbatim>\<open>fetch\<close> has produced a response. An \<open>Exit (Threw e)\<close> here is
  caught by the \<^verbatim>\<open>catch\<close> block below.\<close>

definition try_block :: "'p response \<Rightarrow> nat \<Rightarrow> nat \<Rightarrow> browser \<Rightarrow> 'p step \<times> browser" where
  "try_block response retries attempt w =
     (if status response = 401 then
        (Exit (Threw (Error ''Unauthorized'')), set_href ''/login'' (removeItem ''user'' w))
      else if status response = 429 \<and> attempt < retries then
        (Continue, sleep (rate_limit_delay (retry_after response) attempt) w)
      else if status response \<ge> 500 \<and> attempt < retries then
        (Continue, sleep (exponential_delay attempt) w)
      else
        (case json_body response of
           Unparseable \<Rightarrow> (Exit (Threw (Error (http_message response))), w)
         | Parsed data \<Rightarrow>
             if \<not> ok response then
               (if status response = 401 then
                  (case data of
                     JsonNull \<Rightarrow> (Exit (Threw null_property_error), w)
                   | JsonValue m p \<Rightarrow> (Exit (Threw (Error (message_or m ''Authentication failed''))), w))
                else if status response = 429 then
                  (Exit (Threw (Error ''Too many requests. Please try again later.'')), w)
                else if status response \<ge> 500 then
                  (Exit (Threw (Error ''Server error. Please try again later.'')), w)
                else
                  (case data of
                     JsonNull \<Rightarrow> (Exit (Threw null_property_error), w)
                   | JsonValue m p \<Rightarrow> (Exit (Threw (Error (message_or m (http_message response)))), w)))
             else (Exit (Returned data), w)))"

definition networkError :: js_error where
  "networkError =
     \<lparr>name = ''Error'',
      message = ''Unable to connect to the server. Please check your connection and try again.'',
      code = Some ''NETWORK_ERROR''\<rparr>"

text \<open>The test of the \<^verbatim>\<open>catch\<close> block for a client error that is not retried.\<close>

definition client_error_message :: "string \<Rightarrow> bool" where
  "client_error_message msg =
     (includes_str msg ''HTTP 4'' \<and> \<not> includes_str msg ''401'' \<and> \<not> includes_str msg ''429'')"

definition catch_block :: "js_error \<Rightarrow> nat \<Rightarrow> nat \<Rightarrow> browser \<Rightarrow> 'p step \<times> browser" where
  "catch_block error retries attempt w =
     (if name error = ''TypeError'' \<and> includes_str (message error) ''fetch'' then
        (Exit (Threw networkError), w)
      else if attempt = retries \<or> client_error_message (message error) then
        (Exit (Threw error), console_error error w)
      else if attempt < retries then
        (Continue, sleep (exponential_delay attempt) w)
      else
        (Exit (Threw error), console_error error w))"

text \<open>One pass through the body of the \<^verbatim>\<open>for\<close> loop: the call of \<^verbatim>\<open>fetch\<close>, the \<^verbatim>\<open>try\<close> block
  and, for anything thrown there, the \<^verbatim>\<open>catch\<close> block.\<close>

definition attempt_body ::
  "'p fetch_result \<Rightarrow> string \<Rightarrow> request_init \<Rightarrow> nat \<Rightarrow> nat \<Rightarrow> browser \<Rightarrow> 'p step \<times> browser" where
  "attempt_body result url config retries attempt w =
     (let w1 = emit (FetchCall url config) w;
          (s, w2) = (case result of
                       Rejects e \<Rightarrow> (Exit (Threw e), w1)
                     | Responds response \<Rightarrow> try_block response retries attempt w1)
      in case s of
           Exit (Threw e) \<Rightarrow> catch_block e retries attempt w2
         | _ \<Rightarrow> (s, w2))"

text \<open>\<^verbatim>\<open>for (let attempt = 1; attempt <= retries; attempt++)\<close>; \<open>fetch n\<close> is what the
  network does with the call made on attempt \<open>n\<close>.\<close>

function request_loop ::
  "(nat \<Rightarrow> 'p fetch_result) \<Rightarrow> string \<Rightarrow> request_init \<Rightarrow> nat \<Rightarrow> nat \<Rightarrow> browser \<Rightarrow> 'p outcome \<times> browser" where
  "request_loop fetch url config retries attempt w =
     (if attempt \<le> retries then
        (case attempt_body (fetch attempt) url config retries attempt w of
           (Continue, w') \<Rightarrow> request_loop fetch url config retries (Suc attempt) w'
         | (Exit out, w') \<Rightarrow> (out, w'))
      else (ReturnedUndefined, w))"
  by pat_completeness auto
termination
  by (relation "measure (\<lambda>(fetch, url, config, retries, attempt, w). Suc retries - attempt)") auto

declare request_loop.simps [simp del]

definition request ::
  "api_client \<Rightarrow> (nat \<Rightarrow> 'p fetch_result) \<Rightarrow> string \<Rightarrow> request_init \<Rightarrow> nat \<Rightarrow> browser \<Rightarrow> 'p outcome \<times> browser" where
  "request client fetch endpoint options retries w =
     request_loop fetch (baseURL client @ endpoint) (request_config options) retries 1 w"

text \<open>The options object of the five public methods, \<^verbatim>\<open>{ method: m }\<close> or
  \<^verbatim>\<open>{ method: m, body: JSON.stringify(body) }\<close>.\<close>

definition method_options :: "string \<Rightarrow> string option \<Rightarrow> request_init" where
  "method_options m b = \<lparr>http_method = Some m, body = b, headers = None, credentials = None\<rparr>"

text \<open>The public methods call \<^verbatim>\<open>request\<close> without its third argument, so \<open>retries\<close> is the
  default 3. \<^verbatim>\<open>JSON.stringify\<close> is the platform's and is taken as the parameter \<open>stringify\<close>.\<close>

definition get ::
  "api_client \<Rightarrow> (nat \<Rightarrow> 'p fetch_result) \<Rightarrow> string \<Rightarrow> browser \<Rightarrow> 'p outcome \<times> browser" where
  "get client fetch endpoint w = request client fetch endpoint (method_options ''GET'' None) 3 w"

definition post ::
  "('b \<Rightarrow> string) \<Rightarrow> api_client \<Rightarrow> (nat \<Rightarrow> 'p fetch_result) \<Rightarrow> string \<Rightarrow> 'b \<Rightarrow> browser
     \<Rightarrow> 'p outcome \<times> browser" where
  "post stringify client fetch endpoint b w =
     request client fetch endpoint (method_options ''POST'' (Some (stringify b))) 3 w"

definition put ::
  "('b \<Rightarrow> string) \<Rightarrow> api_client \<Rightarrow> (nat \<Rightarrow> 'p fetch_result) \<Rightarrow> string \<Rightarrow> 'b \<Rightarrow> browser
     \<Rightarrow> 'p outcome \<times> browser" where
  "put stringify client fetch endpoint b w =
     request client fetch endpoint (method_options ''PUT'' (Some (stringify b))) 3 w"

definition patch ::
  "('b \<Rightarrow> string) \<Rightarrow> api_client \<Rightarrow> (nat \<Rightarrow> 'p fetch_result) \<Rightarrow> string \<Rightarrow> 'b \<Rightarrow> browser
     \<Rightarrow> 'p outcome \<times> browser" where
  "patch stringify client fetch endpoint b w =
     request client fetch endpoint (method_options ''PATCH'' (Some (stringify b))) 3 w"

definition delete ::
  "api_client \<Rightarrow> (nat \<Rightarrow> 'p fetch_result) \<Rightarrow> string \<Rightarrow> browser \<Rightarrow> 'p outcome \<times> browser" where
  "delete client fetch endpoint w = request client fetch endpoint (method_options ''DELETE'' None) 3 w"

subsection \<open>Reading the trace of a call\<close>

fun is_fetch :: "event \<Rightarrow> bool" where
  "is_fetch (FetchCall url config) = True"
| "is_fetch _ = False"

text \<open>The number of attempts made so far: one call of \<^verbatim>\<open>fetch\<close> each.\<close>

definition fetch_calls :: "browser \<Rightarrow> nat" where
  "fetch_calls w = length (filter is_fetch (events w))"

fun config_of :: "event \<Rightarrow> request_init list" where
  "config_of (FetchCall url config) = [config]"
| "config_of _ = []"

definition fetch_configs :: "browser \<Rightarrow> request_init list" where
  "fetch_configs w = concat (map config_of (events w))"

fun delay_of :: "event \<Rightarrow> jsnum list" where
  "delay_of (SetTimeout d) = [d]"
| "delay_of _ = []"

text \<open>The delays waited, in order.\<close>

definition delays :: "browser \<Rightarrow> jsnum list" where
  "delays w = concat (map delay_of (events w))"

text \<open>How often the stored user was removed and how often the page was sent to the login
  entry point.\<close>

definition user_removals :: "browser \<Rightarrow> nat" where
  "user_removals w = length (filter (\<lambda>e. e = RemoveItem ''user'') (events w))"

definition login_redirects :: "browser \<Rightarrow> nat" where
  "login_redirects w = length (filter (\<lambda>e. e = SetHref ''/login'') (events w))"

section \<open>AuthProvider and ProtectedRoute\<close>

text \<open>The user object of the auth context; only \<^verbatim>\<open>role\<close> is read here.\<close>

record user_info =
  role :: string

record auth_context =
  user :: "user_info option"
  loading :: bool
  window :: browser

text \<open>\<^verbatim>\<open>logout\<close>: the \<^verbatim>\<open>fetch\<close> of \<^verbatim>\<open>/auth/logout\<close> resolves with some response or rejects; a
  rejection is logged by the \<^verbatim>\<open>catch\<close>; the \<^verbatim>\<open>finally\<close> block runs in both cases.\<close>

definition logout_init :: request_init where
  "logout_init = \<lparr>http_method = Some ''POST'', body = None, headers = None, credentials = Some ''include''\<rparr>"

definition logout :: "'p fetch_result \<Rightarrow> auth_context \<Rightarrow> auth_context" where
  "logout result ctx =
     (let w1 = emit (FetchCall ''/auth/logout'' logout_init) (window ctx);
          w2 = (case result of Rejects error \<Rightarrow> console_error error w1 | Responds r \<Rightarrow> w1);
          w3 = removeItem ''user'' w2
      in ctx\<lparr>user := None, window := set_href ''/login'' w3\<rparr>)"

text \<open>What \<^verbatim>\<open>ProtectedRoute\<close> renders.\<close>

datatype 'c element = LoadingDiv | Navigate string | Children 'c

definition ProtectedRoute :: "'c \<Rightarrow> bool \<Rightarrow> bool \<Rightarrow> auth_context \<Rightarrow> 'c element" where
  "ProtectedRoute children requireAdmin requireManager ctx =
     (if loading ctx then LoadingDiv
      else case user ctx of
        None \<Rightarrow> Navigate ''/login''
      | Some u \<Rightarrow>
          (let requiresManagerAccess = requireManager \<or> requireAdmin
           in if requiresManagerAccess \<and> role u \<noteq> ''Manager'' \<and> role u \<noteq> ''Admin''
              then Navigate ''/dashboard''
              else Children children))"

section \<open>StatusBoard\<close>

text \<open>
  The board component itself is not among the sources (only its test suite is), so this
  section follows the specification's sections 3, 4.1 and 8.
\<close>

text \<open>Modelled from the spec: the board component is missing from the sources. A task has
  a unique id, a title, an optional description, one of three statuses and an optional
  assignee (a member id).\<close>

datatype kanban_status = ToDo | InProgress | Done

record task =
  task_id :: nat
  title :: string
  description :: "string option"
  task_status :: kanban_status
  assignee :: "nat option"

text \<open>Modelled from the spec: the board component is missing from the sources. A column is
  an ordered bucket whose membership is derived entirely from the status of each task, not
  stored independently.\<close>

definition column :: "task list \<Rightarrow> kanban_status \<Rightarrow> task list" where
  "column ts s = filter (\<lambda>t. task_status t = s) ts"

text \<open>Modelled from the spec: the board component is missing from the sources. A task id
  must reference an existing task.\<close>

definition find_task :: "nat \<Rightarrow> task list \<Rightarrow> task option" where
  "find_task tid ts = find (\<lambda>t. task_id t = tid) ts"

text \<open>Modelled from the spec: the board component is missing from the sources. Taking a
  task out of the collection, as a drag does before the task is dropped elsewhere.\<close>

definition remove_task :: "nat \<Rightarrow> task list \<Rightarrow> task list" where
  "remove_task tid ts = filter (\<lambda>t. task_id t \<noteq> tid) ts"

text \<open>Modelled from the spec: the board component is missing from the sources. The position
  of a task within a column.\<close>

definition position :: "nat \<Rightarrow> task list \<Rightarrow> nat" where
  "position tid col = length (takeWhile (\<lambda>t. task_id t \<noteq> tid) col)"

text \<open>Modelled from the spec: the board component is missing from the sources. A dropped
  task is inserted at the exact index of its column indicated by the drop target, shifting
  subsequent tasks down by one; an index past the end of the column appends.\<close>

fun insert_at :: "task \<Rightarrow> nat \<Rightarrow> task list \<Rightarrow> task list" where
  "insert_at t i [] = [t]"
| "insert_at t i (x # xs) =
     (if task_status x = task_status t
      then (case i of 0 \<Rightarrow> t # x # xs | Suc j \<Rightarrow> x # insert_at t j xs)
      else x # insert_at t i xs)"

text \<open>Modelled from the spec: the board component is missing from the sources. The pre-drag
  snapshot of a move is the dragged task with its column (its status) and its position.\<close>

record snapshot =
  dragged :: task
  origin :: nat

definition take_snapshot :: "task \<Rightarrow> task list \<Rightarrow> snapshot" where
  "take_snapshot t ts = \<lparr>dragged = t, origin = position (task_id t) (column ts (task_status t))\<rparr>"

text \<open>Modelled from the spec: the board component is missing from the sources. State
  \<^verbatim>\<open>Pending\<close>: the local state is updated to the target status and position at once.\<close>

definition optimistic_move :: "task \<Rightarrow> kanban_status \<Rightarrow> nat \<Rightarrow> task list \<Rightarrow> task list" where
  "optimistic_move t targetStatus targetIndex ts =
     insert_at (t\<lparr>task_status := targetStatus\<rparr>) targetIndex (remove_task (task_id t) ts)"

text \<open>Modelled from the spec: the board component is missing from the sources. State
  \<^verbatim>\<open>RolledBack\<close>: the task goes back to the column and position of the snapshot.\<close>

definition rollback :: "snapshot \<Rightarrow> task list \<Rightarrow> task list" where
  "rollback snap ts = insert_at (dragged snap) (origin snap) (remove_task (task_id (dragged snap)) ts)"

text \<open>Modelled from the spec: the board component is missing from the sources. State
  \<^verbatim>\<open>Committed\<close>: the local task is replaced by the record the server returned.\<close>

definition commit :: "nat \<Rightarrow> task \<Rightarrow> task list \<Rightarrow> task list" where
  "commit tid record ts = map (\<lambda>t. if task_id t = tid then record else t) ts"

text \<open>Modelled from the spec: the board component is missing from the sources. The persist
  call of a move ends with the server's record of the task or, once the client's retries
  are used up, with a failure; the board holds the task collection and the errors it has
  shown to the user.\<close>

datatype persist_result = Persisted task | PersistFailed string

record board =
  tasks :: "task list"
  notifications :: "string list"

text \<open>Modelled from the spec: the board component is missing from the sources.
  \<^verbatim>\<open>move(taskId, targetStatus, targetIndex)\<close> with the result of its persist call; \<open>None\<close> when
  the task id references no task of the board.\<close>

definition move :: "nat \<Rightarrow> kanban_status \<Rightarrow> nat \<Rightarrow> persist_result \<Rightarrow> board \<Rightarrow> board option" where
  "move taskId targetStatus targetIndex persist b =
     (case find_task taskId (tasks b) of
        None \<Rightarrow> None
      | Some t \<Rightarrow>
          (let snap = take_snapshot t (tasks b);
               pending = optimistic_move t targetStatus targetIndex (tasks b)
           in case persist of
                Persisted record \<Rightarrow> Some (b\<lparr>tasks := commit taskId record pending\<rparr>)
              | PersistFailed failure \<Rightarrow>
                  Some (b\<lparr>tasks := rollback snap pending,
                          notifications := notifications b @ [failure]\<rparr>)))"

section \<open>Concrete scenarios\<close>

text \<open>A development server, a browser with a stored user, and the rejection of \<^verbatim>\<open>fetch\<close> that
  Chromium raises when the server cannot be reached.\<close>

definition local_client :: api_client where
  "local_client = \<lparr>baseURL = ''http://localhost:5000''\<rparr>"

definition signed_in :: browser where
  "signed_in = \<lparr>localStorage = [''user'' \<mapsto> ''{}''], href = ''/dashboard'', events = []\<rparr>"

definition failed_to_fetch :: js_error where
  "failed_to_fetch = \<lparr>name = ''TypeError'', message = ''Failed to fetch'', code = None\<rparr>"

text \<open>A response by its status, status text, \<^verbatim>\<open>Retry-After\<close> header and body.\<close>

definition respond :: "nat \<Rightarrow> string \<Rightarrow> string option \<Rightarrow> unit json_result \<Rightarrow> unit fetch_result" where
  "respond st txt ra b = Responds \<lparr>status = st, statusText = txt, retry_after = ra, json_body = b\<rparr>"

text \<open>The board of the specification's scenarios: one task in each column.\<close>

definition three_tasks :: board where
  "three_tasks =
     \<lparr>tasks =
        [\<lparr>task_id = 1, title = ''Task 1'', description = Some ''Description 1'', task_status = ToDo, assignee = Some 1\<rparr>,
         \<lparr>task_id = 2, title = ''Task 2'', description = Some ''Description 2'', task_status = InProgress, assignee = Some 2\<rparr>,
         \<lparr>task_id = 3, title = ''Task 3'', description = None, task_status = Done, assignee = None\<rparr>],
      notifications = []\<rparr>"

section \<open>Doubles that hold an integer exactly\<close>

lemma bit_length_le: "a < 2 ^ k \<Longrightarrow> bit_length a \<le> k"
proof (induction k arbitrary: a)
  case 0
  then show ?case by (simp add: bit_length.simps [of a])
next
  case (Suc k)
  show ?case
  proof (cases "a \<le> 0")
    case True
    then show ?thesis by (simp add: bit_length.simps [of a])
  next
    case False
    from Suc.prems have "a div 2 < 2 ^ k" by simp
    then have "bit_length (a div 2) \<le> k" by (rule Suc.IH)
    with False show ?thesis by (simp add: bit_length.simps [of a])
  qed
qed

lemma to_double_exact:
  assumes "0 \<le> x" and "x < 2 ^ (53 + j)" and "2 ^ j dvd x" and "x < 2 ^ 1024"
  shows "to_double x = Num x"
proof -
  define e where "e = bit_length x - 53"
  have "bit_length x \<le> 53 + j"
    using assms(2) by (rule bit_length_le)
  then have "e \<le> j" by (simp add: e_def)
  then have "(2::int) ^ e dvd 2 ^ j" by (rule le_imp_power_dvd)
  then have d: "2 ^ e dvd x" using assms(3) by (rule dvd_trans)
  then have r: "x mod 2 ^ e = 0" by simp
  from d have q: "x div 2 ^ e * 2 ^ e = x" by simp
  have a: "\<bar>x\<bar> = x" using assms(1) by simp
  have p: "(0::int) < 2 ^ e" by simp
  have n: "\<not> x < 0" "\<not> 2 ^ 1024 \<le> x" using assms(1,4) by simp_all
  have "to_double x =
        (let q' = (if 2 * (x mod 2 ^ e) > 2 ^ e \<or> (2 * (x mod 2 ^ e) = 2 ^ e \<and> odd (x div 2 ^ e))
                   then x div 2 ^ e + 1 else x div 2 ^ e);
             m = q' * 2 ^ e
         in if m \<ge> 2 ^ 1024 then (if x < 0 then NegInfinity else PosInfinity)
            else Num (if x < 0 then - m else m))"
    by (simp only: to_double_def Let_def a e_def)
  also have "\<dots> = Num x"
    using p n by (simp add: r q Let_def)
  finally show ?thesis .
qed

lemma bit_length_eq: "2 ^ k \<le> a \<Longrightarrow> a < 2 ^ Suc k \<Longrightarrow> bit_length a = Suc k"
proof (induction k arbitrary: a)
  case 0
  then have "a = 1" by simp
  then show ?case by (simp add: bit_length.simps [of 1] bit_length.simps [of 0])
next
  case (Suc k)
  have pos: "\<not> a \<le> 0"
  proof
    assume "a \<le> 0"
    moreover have "(0::int) < 2 ^ Suc k" by simp
    ultimately show False using Suc.prems(1) by linarith
  qed
  have "2 ^ k \<le> a div 2" "a div 2 < 2 ^ Suc k"
    using Suc.prems by simp_all
  then have "bit_length (a div 2) = Suc k" by (rule Suc.IH)
  with pos show ?case by (simp add: bit_length.simps [of a])
qed

lemma div_less_bound:
  assumes "0 < d" and "x < c * d"
  shows "x div d < (c::int)"
proof (rule ccontr)
  assume "\<not> x div d < c"
  then have "c \<le> x div d" by simp
  then have "c * d \<le> x div d * d"
    using assms(1) by (simp add: mult_right_mono)
  also have "x div d * d \<le> x"
  proof -
    have "x div d * d + x mod d = x" by (rule div_mult_mod_eq)
    moreover have "0 \<le> x mod d" using assms(1) by simp
    ultimately show ?thesis by linarith
  qed
  finally show False using assms(2) by simp
qed

lemma to_double_round:
  assumes "2 ^ (52 + e) \<le> x" and "x < 2 ^ (53 + e)" and "53 + e < 1024"
  shows "to_double x =
           Num ((if 2 * (x mod 2 ^ e) > 2 ^ e \<or> (2 * (x mod 2 ^ e) = 2 ^ e \<and> odd (x div 2 ^ e))
                 then x div 2 ^ e + 1 else x div 2 ^ e) * 2 ^ e)"
proof -
  let ?q' = "if 2 * (x mod 2 ^ e) > 2 ^ e \<or> (2 * (x mod 2 ^ e) = 2 ^ e \<and> odd (x div 2 ^ e))
             then x div 2 ^ e + 1 else x div 2 ^ e"
  have "(0::int) < 2 ^ (52 + e)" by simp
  with assms(1) have pos: "0 < x" by linarith
  have b: "bit_length x = 53 + e"
    using bit_length_eq [of "52 + e" x] assms(1,2) by simp
  have "x < 2 ^ 53 * 2 ^ e"
    using assms(2) by (simp add: power_add)
  then have "x div 2 ^ e < 2 ^ 53"
    by (intro div_less_bound) simp_all
  then have "?q' \<le> 2 ^ 53" by simp
  then have "?q' * 2 ^ e \<le> 2 ^ 53 * 2 ^ e"
    by (rule mult_right_mono) simp
  also have "(2::int) ^ 53 * 2 ^ e = 2 ^ (53 + e)"
    by (rule power_add [symmetric])
  also have "(2::int) ^ (53 + e) < 2 ^ 1024"
    using assms(3) by (intro power_strict_increasing) simp_all
  finally have lt: "\<not> 2 ^ 1024 \<le> ?q' * 2 ^ e" by simp
  have a: "\<bar>x\<bar> = x" "\<not> x < 0" using pos by simp_all
  have e: "53 + e - 53 = e" by simp
  have "to_double x = (if 2 ^ 1024 \<le> ?q' * 2 ^ e then PosInfinity else Num (?q' * 2 ^ e))"
    by (simp only: to_double_def Let_def a b e if_False)
  with lt show ?thesis by (simp only: if_False)
qed

lemma to_double_small:
  assumes "0 \<le> x" and "x < 2 ^ 53"
  shows "to_double x = Num x"
proof (rule to_double_exact [where j = 0])
  show "0 \<le> x" by (rule assms)
  show "x < 2 ^ (53 + 0)" using assms(2) by simp
  show "2 ^ 0 dvd x" by simp
  have "(2::int) ^ 53 \<le> 2 ^ 1024" by (rule power_increasing) simp_all
  with assms(2) show "x < 2 ^ 1024" by (rule less_le_trans)
qed

lemma exponential_delay_exact:
  assumes "attempt \<le> 1014"
  shows "exponential_delay attempt = Num (2 ^ attempt * 1000)"
proof -
  have lt: "(2::int) ^ attempt < 2 ^ 1024"
  proof (rule power_strict_increasing)
    show "attempt < 1024" using assms by simp
    show "(1::int) < 2" by simp
  qed
  have up: "(2::int) ^ attempt < 2 ^ (53 + attempt)"
    by (rule power_strict_increasing) simp_all
  have one: "to_double (2 ^ attempt) = Num (2 ^ attempt)"
  proof (rule to_double_exact [where j = attempt])
    show "(0::int) \<le> 2 ^ attempt" by simp
    show "(2::int) ^ attempt < 2 ^ (53 + attempt)" by (rule up)
    show "(2::int) ^ attempt dvd 2 ^ attempt" by simp
    show "(2::int) ^ attempt < 2 ^ 1024" by (rule lt)
  qed
  have le: "(2::int) ^ attempt \<le> 2 ^ 1014"
  proof (rule power_increasing)
    show "attempt \<le> 1014" by (rule assms)
    show "(1::int) \<le> 2" by simp
  qed
  have k: "(1000::int) < 2 ^ 10" by simp
  have "(2::int) ^ attempt * 1000 < 2 ^ 1014 * 2 ^ 10"
  proof (rule mult_le_less_imp_less)
    show "(2::int) ^ attempt \<le> 2 ^ 1014" by (rule le)
    show "(1000::int) < 2 ^ 10" by (rule k)
    show "(0::int) < 2 ^ attempt" by simp
    show "(0::int) \<le> 1000" by simp
  qed
  also have "(2::int) ^ 1014 * 2 ^ 10 = 2 ^ (1014 + 10)"
    by (rule power_add [symmetric])
  also have "(1014::nat) + 10 = 1024" by simp
  finally have big: "(2::int) ^ attempt * 1000 < 2 ^ 1024" .
  have m: "(1000::int) < 2 ^ 53" by simp
  have "(2::int) ^ attempt * 1000 < 2 ^ attempt * 2 ^ 53"
  proof (rule mult_strict_left_mono)
    show "(1000::int) < 2 ^ 53" by (rule m)
    show "(0::int) < 2 ^ attempt" by simp
  qed
  also have "(2::int) ^ attempt * 2 ^ 53 = 2 ^ (53 + attempt)"
    by (simp only: power_add mult.commute)
  finally have up': "(2::int) ^ attempt * 1000 < 2 ^ (53 + attempt)" .
  have two: "to_double (2 ^ attempt * 1000) = Num (2 ^ attempt * 1000)"
  proof (rule to_double_exact [where j = attempt])
    show "(0::int) \<le> 2 ^ attempt * 1000" by simp
    show "(2::int) ^ attempt * 1000 < 2 ^ (53 + attempt)" by (rule up')
    show "(2::int) ^ attempt dvd 2 ^ attempt * 1000" by simp
    show "(2::int) ^ attempt * 1000 < 2 ^ 1024" by (rule big)
  qed
  show ?thesis
    by (simp only: exponential_delay_def one times_1000.simps two)
qed

lemma exponential_delay_first:
  "exponential_delay (Suc 0) = Num 2000" "exponential_delay (Suc (Suc 0)) = Num 4000"
  using exponential_delay_exact [of "Suc 0"] exponential_delay_exact [of "Suc (Suc 0)"]
  by simp_all

lemma times_1000_exact:
  assumes "int n * 1000 < 2 ^ 53"
  shows "times_1000 (to_double (int n)) = Num (int n * 1000)"
proof -
  from assms have "int n < 2 ^ 53" by simp
  then have "to_double (int n) = Num (int n)" by (intro to_double_small) simp_all
  moreover have "to_double (int n * 1000) = Num (int n * 1000)"
    using assms by (intro to_double_small) simp_all
  ultimately show ?thesis by simp
qed

section \<open>Decimal texts are read back by \<^verbatim>\<open>parseInt\<close>\<close>

lemma digit_char_value: "d < 10 \<Longrightarrow> digit_value 10 (digit_char d) = Some d"
proof -
  assume "d < 10"
  then have "d \<in> {0,1,2,3,4,5,6,7,8,9}" by auto
  then show ?thesis
    by (auto simp: digit_value_def digit_char_def upt_conv_Cons)
qed

lemma digit_char_plain:
  assumes "d < 10"
  shows "\<not> is_space (digit_char d)" "digit_char d \<noteq> CHR ''-''" "digit_char d \<noteq> CHR ''+''"
    "digit_char d \<noteq> CHR ''x''" "digit_char d \<noteq> CHR ''X''"
proof -
  from assms have "d \<in> {0,1,2,3,4,5,6,7,8,9}" by auto
  then show "\<not> is_space (digit_char d)" "digit_char d \<noteq> CHR ''-''" "digit_char d \<noteq> CHR ''+''"
    "digit_char d \<noteq> CHR ''x''" "digit_char d \<noteq> CHR ''X''"
    by (auto simp: is_space_def digit_char_def)
qed

lemma decimal_show_nat: "decimal (show_nat n)"
proof (induction n rule: show_nat.induct)
  case (1 n)
  show ?case
  proof (cases "n < 10")
    case True
    then show ?thesis by (auto simp: show_nat.simps [of n] decimal_def)
  next
    case False
    have "n mod 10 < 10" by simp
    then have "\<exists>d<10. digit_char (n mod 10) = digit_char d" by blast
    with False "1.IH" show ?thesis
      by (simp add: show_nat.simps [of n] decimal_def)
  qed
qed

lemma show_nat_nonempty: "show_nat n \<noteq> []"
  by (simp add: show_nat.simps [of n])

lemma read_digits_append:
  "decimal xs \<Longrightarrow> read_digits 10 (xs @ ys) acc = read_digits 10 ys (read_digits 10 xs acc)"
proof (induction xs arbitrary: acc)
  case Nil
  then show ?case by simp
next
  case (Cons x xs)
  then obtain d where d: "d < 10" "x = digit_char d" by (auto simp: decimal_def)
  from Cons.prems have "decimal xs" by (simp add: decimal_def)
  with Cons.IH d show ?case by (simp add: digit_char_value)
qed

lemma read_digits_show_nat: "read_digits 10 (show_nat n) None = Some n"
proof (induction n rule: show_nat.induct)
  case (1 n)
  show ?case
  proof (cases "n < 10")
    case True
    then show ?thesis by (simp add: show_nat.simps [of n] digit_char_value)
  next
    case False
    have m: "n mod 10 < 10" by simp
    from False "1.IH" have "read_digits 10 (show_nat (n div 10)) None = Some (n div 10)" by simp
    with False m show ?thesis
      by (simp add: show_nat.simps [of n] read_digits_append decimal_show_nat digit_char_value)
  qed
qed

lemma parseInt_decimal:
  assumes "decimal s" "s \<noteq> []"
  shows "parseInt s = (case read_digits 10 s None of None \<Rightarrow> NaN | Some n \<Rightarrow> to_double (int n))"
proof -
  from assms obtain c cs where s: "s = c # cs" by (cases s) auto
  with assms obtain d where d: "d < 10" "c = digit_char d" by (auto simp: decimal_def)
  have nx: "\<not> startsWith s ''0x''" "\<not> startsWith s ''0X''"
  proof -
    show "\<not> startsWith s ''0x''"
    proof (cases cs)
      case Nil
      with s show ?thesis by simp
    next
      case (Cons c' cs')
      with assms s obtain d' where "d' < 10" "c' = digit_char d'" by (auto simp: decimal_def)
      with digit_char_plain [of d'] s Cons show ?thesis by simp
    qed
    show "\<not> startsWith s ''0X''"
    proof (cases cs)
      case Nil
      with s show ?thesis by simp
    next
      case (Cons c' cs')
      with assms s obtain d' where "d' < 10" "c' = digit_char d'" by (auto simp: decimal_def)
      with digit_char_plain [of d'] s Cons show ?thesis by simp
    qed
  qed
  have ws: "dropWhile is_space s = s"
    using s d digit_char_plain [of d] by simp
  have sg: "(case s of
               c # cs \<Rightarrow> if c = CHR ''-'' then (- 1, cs)
                         else if c = CHR ''+'' then (1, cs) else (1, s)
             | [] \<Rightarrow> (1::int, s)) = (1, s)"
    using s d digit_char_plain [of d] by simp
  show ?thesis
    by (simp add: parseInt_def ws sg nx cong: option.case_cong)
qed

lemma parseInt_show_nat: "parseInt (show_nat n) = to_double (int n)"
  by (simp add: parseInt_decimal decimal_show_nat show_nat_nonempty read_digits_show_nat)

section \<open>The retry loop is bounded\<close>

lemma fetch_calls_simps:
  "fetch_calls (emit (FetchCall u c) w) = Suc (fetch_calls w)"
  "fetch_calls (sleep d w) = fetch_calls w"
  "fetch_calls (console_error e w) = fetch_calls w"
  "fetch_calls (removeItem k w) = fetch_calls w"
  "fetch_calls (set_href h w) = fetch_calls w"
  by (simp_all add: fetch_calls_def emit_def sleep_def console_error_def removeItem_def set_href_def)

lemma try_block_fetch_calls:
  "fetch_calls (snd (try_block r retries a w)) = fetch_calls w"
  by (simp add: try_block_def fetch_calls_simps split: json_result.splits json.splits)

lemma catch_block_fetch_calls:
  "fetch_calls (snd (catch_block e retries a w)) = fetch_calls w"
  by (simp add: catch_block_def fetch_calls_simps)

lemma try_block_Continue:
  "fst (try_block r retries a w) = Continue \<Longrightarrow> a < retries"
  by (simp add: try_block_def split: json_result.splits json.splits if_splits)

lemma catch_block_Continue:
  "fst (catch_block e retries a w) = Continue \<Longrightarrow> a < retries"
  by (simp add: catch_block_def split: if_splits)

lemma try_block_defined:
  "fst (try_block r retries a w) \<noteq> Exit ReturnedUndefined"
  by (simp add: try_block_def split: json_result.splits json.splits)

lemma catch_block_defined:
  "fst (catch_block e retries a w) \<noteq> Exit ReturnedUndefined"
  by (simp add: catch_block_def)

lemma attempt_body_cases:
  "attempt_body result url config retries a w =
     (case result of
        Rejects e \<Rightarrow> catch_block e retries a (emit (FetchCall url config) w)
      | Responds r \<Rightarrow>
          (case try_block r retries a (emit (FetchCall url config) w) of
             (Exit (Threw e), w2) \<Rightarrow> catch_block e retries a w2
           | (s, w2) \<Rightarrow> (s, w2)))"
  by (simp add: attempt_body_def Let_def split: fetch_result.splits prod.splits step.splits outcome.splits)

lemma attempt_body_fetch_calls:
  "fetch_calls (snd (attempt_body result url config retries a w)) = Suc (fetch_calls w)"
proof (cases result)
  case (Rejects e)
  then show ?thesis
    by (simp add: attempt_body_cases catch_block_fetch_calls fetch_calls_simps)
next
  case (Responds r)
  obtain s w2 where t: "try_block r retries a (emit (FetchCall url config) w) = (s, w2)"
    by (cases "try_block r retries a (emit (FetchCall url config) w)")
  have "fetch_calls w2 = Suc (fetch_calls w)"
    using try_block_fetch_calls [of r retries a "emit (FetchCall url config) w"] t
    by (simp add: fetch_calls_simps)
  with Responds t show ?thesis
    by (simp add: attempt_body_cases catch_block_fetch_calls split: step.splits outcome.splits)
qed

lemma attempt_body_Continue:
  assumes "fst (attempt_body result url config retries a w) = Continue"
  shows "a < retries"
proof (cases result)
  case (Rejects e)
  with assms show ?thesis
    by (simp add: attempt_body_cases catch_block_Continue)
next
  case (Responds r)
  obtain s w2 where t: "try_block r retries a (emit (FetchCall url config) w) = (s, w2)"
    by (cases "try_block r retries a (emit (FetchCall url config) w)")
  show ?thesis
  proof (cases s)
    case Continue
    with t try_block_Continue [of r retries a "emit (FetchCall url config) w"] show ?thesis
      by simp
  next
    case (Exit out)
    with assms Responds t show ?thesis
      by (cases out) (auto simp: attempt_body_cases dest: catch_block_Continue)
  qed
qed

lemma attempt_body_defined:
  "fst (attempt_body result url config retries a w) \<noteq> Exit ReturnedUndefined"
proof (cases result)
  case (Rejects e)
  then show ?thesis
    by (simp add: attempt_body_cases catch_block_defined)
next
  case (Responds r)
  obtain s w2 where t: "try_block r retries a (emit (FetchCall url config) w) = (s, w2)"
    by (cases "try_block r retries a (emit (FetchCall url config) w)")
  have "s \<noteq> Exit ReturnedUndefined"
    using try_block_defined [of r retries a "emit (FetchCall url config) w"] t by simp
  with Responds t show ?thesis
    by (auto simp: attempt_body_cases catch_block_defined split: step.splits outcome.splits)
qed

lemma request_loop_fetch_calls:
  "fetch_calls (snd (request_loop fetch url config retries a w)) \<le> fetch_calls w + (Suc retries - a)"
proof (induction fetch url config retries a w rule: request_loop.induct)
  case (1 fetch url config retries attempt w)
  show ?case
  proof (cases "attempt \<le> retries")
    case False
    then show ?thesis by (simp add: request_loop.simps)
  next
    case True
    obtain s w' where b: "attempt_body (fetch attempt) url config retries attempt w = (s, w')"
      by (cases "attempt_body (fetch attempt) url config retries attempt w")
    have n: "fetch_calls w' = Suc (fetch_calls w)"
      using attempt_body_fetch_calls [of "fetch attempt" url config retries attempt w] b by simp
    show ?thesis
    proof (cases s)
      case Continue
      with "1.IH" [OF True b [symmetric]] True b n show ?thesis
        by (simp add: request_loop.simps [of fetch url config retries attempt])
    next
      case (Exit out)
      with True b n show ?thesis
        by (simp add: request_loop.simps [of fetch url config retries attempt])
    qed
  qed
qed

lemma request_loop_defined:
  "a \<le> retries \<Longrightarrow> fst (request_loop fetch url config retries a w) \<noteq> ReturnedUndefined"
proof (induction fetch url config retries a w rule: request_loop.induct)
  case (1 fetch url config retries attempt w)
  obtain s w' where b: "attempt_body (fetch attempt) url config retries attempt w = (s, w')"
    by (cases "attempt_body (fetch attempt) url config retries attempt w")
  show ?case
  proof (cases s)
    case Continue
    then have "attempt < retries"
      using attempt_body_Continue [of "fetch attempt" url config retries attempt w] b by simp
    then have "Suc attempt \<le> retries" by simp
    with "1.IH" [OF "1.prems" b [symmetric]] Continue b "1.prems" show ?thesis
      by (simp add: request_loop.simps [of fetch url config retries attempt])
  next
    case (Exit out)
    have "out \<noteq> ReturnedUndefined"
      using attempt_body_defined [of "fetch attempt" url config retries attempt w] b Exit by simp
    with Exit b "1.prems" show ?thesis
      by (simp add: request_loop.simps [of fetch url config retries attempt])
  qed
qed

text \<open>
  C1. With the default \<open>retries = 3\<close>, whatever the network does on each attempt (so in
  particular when every response is a 5xx or a 429), a call of \<^verbatim>\<open>request\<close> adds at most three
  calls of \<^verbatim>\<open>fetch\<close> to the trace, and it ends by returning a payload or by throwing: the loop
  never runs out without one of the two.
\<close>

theorem request_at_most_three_attempts:
  "fetch_calls (snd (request client fetch endpoint options 3 w)) \<le> fetch_calls w + 3
   \<and> ((\<exists>data. fst (request client fetch endpoint options 3 w) = Returned data)
      \<or> (\<exists>error. fst (request client fetch endpoint options 3 w) = Threw error))"
proof -
  have "fetch_calls (snd (request client fetch endpoint options 3 w)) \<le> fetch_calls w + 3"
    using request_loop_fetch_calls [of fetch "baseURL client @ endpoint" "request_config options" 3 1 w]
    by (simp add: request_def)
  moreover have "fst (request client fetch endpoint options 3 w) \<noteq> ReturnedUndefined"
    using request_loop_defined [of 1 3 fetch "baseURL client @ endpoint" "request_config options" w]
    by (simp add: request_def)
  ultimately show ?thesis
    by (cases "fst (request client fetch endpoint options 3 w)") simp_all
qed

section \<open>Single attempts of the retry loop\<close>

lemmas trace_defs =
  emit_def sleep_def console_error_def removeItem_def set_href_def
  fetch_calls_def fetch_configs_def delays_def user_removals_def login_redirects_def

lemmas client_defs =
  request_def get_def post_def put_def patch_def delete_def method_options_def request_config_def
  getAuthHeaders_def spread_def attempt_body_def try_block_def catch_block_def
  client_error_message_def rate_limit_delay_def http_message_def message_or_def ok_def
  Error_def networkError_def null_property_error_def

lemma request_loop_Continue:
  "attempt \<le> retries \<Longrightarrow> attempt_body (fetch attempt) url config retries attempt w = (Continue, w')
   \<Longrightarrow> request_loop fetch url config retries attempt w = request_loop fetch url config retries (Suc attempt) w'"
  by (simp add: request_loop.simps [of fetch url config retries attempt])

lemma request_loop_Exit:
  "attempt \<le> retries \<Longrightarrow> attempt_body (fetch attempt) url config retries attempt w = (Exit out, w')
   \<Longrightarrow> request_loop fetch url config retries attempt w = (out, w')"
  by (simp add: request_loop.simps [of fetch url config retries attempt])

lemma unauthorized_not_client_error: "\<not> client_error_message ''Unauthorized''"
  by (simp add: client_error_message_def)

subsection \<open>Network failures\<close>

text \<open>
  C2. A rejection of \<^verbatim>\<open>fetch\<close> whose error is a TypeError with \<^verbatim>\<open>fetch\<close> in its message (what
  Chromium and Firefox raise when no response arrives) is turned into the error with code
  \<^verbatim>\<open>NETWORK_ERROR\<close> and thrown by the first attempt: the trace holds one call of \<^verbatim>\<open>fetch\<close>, no
  wait and no second attempt, although the \<^verbatim>\<open>catch\<close> block's own comment announces a retry
  on network issues.
\<close>

theorem network_failure_thrown_on_first_attempt:
  "request client (\<lambda>attempt. Rejects failed_to_fetch) endpoint options 3 w
     = (Threw networkError, emit (FetchCall (baseURL client @ endpoint) (request_config options)) w)"
proof -
  have "attempt_body (Rejects failed_to_fetch) url config 3 1 w
        = (Exit (Threw networkError) :: 'a step, emit (FetchCall url config) w)" for url config
    by (simp add: attempt_body_def catch_block_def failed_to_fetch_def)
  then show ?thesis
    by (simp add: request_def request_loop_Exit)
qed

subsection \<open>Delays before a retry\<close>

text \<open>
  C3, as stated, fails for a \<^verbatim>\<open>Retry-After\<close> value that \<^verbatim>\<open>parseInt\<close> and the double
  multiplication do not carry over: with the header \<^verbatim>\<open>9007199254740993\<close> the call waits
  9007199254740992000 ms, not 9007199254740993000; with an HTTP-date the delay handed to
  \<^verbatim>\<open>setTimeout\<close> is \<^verbatim>\<open>NaN\<close>; with \<^verbatim>\<open>2.5\<close> it is 2000 ms, not 2500.
\<close>

theorem retry_after_counterexample:
  "delays (snd (get local_client
             (\<lambda>attempt. respond 429 ''Too Many Requests'' (Some ''9007199254740993'') Unparseable)
             ''/tasks'' signed_in))
     = [Num 9007199254740992000, Num 9007199254740992000]
   \<and> delays (snd (get local_client
             (\<lambda>attempt. respond 429 ''Too Many Requests'' (Some ''Wed, 21 Oct 2015 07:28:00 GMT'') Unparseable)
             ''/tasks'' signed_in))
     = [NaN, NaN]
   \<and> delays (snd (get local_client
             (\<lambda>attempt. respond 429 ''Too Many Requests'' (Some ''2.5'') Unparseable)
             ''/tasks'' signed_in))
     = [Num 2000, Num 2000]"
proof -
  have big: "show_nat 9007199254740993 = ''9007199254740993''"
    by (simp add: show_nat.simps digit_char_def)
  have "to_double 9007199254740993 = Num 9007199254740992"
    using to_double_round [of 1 9007199254740993] by simp
  then have a: "parseInt ''9007199254740993'' = Num 9007199254740992"
    using parseInt_show_nat [of 9007199254740993] by (simp add: big)
  have a': "to_double 9007199254740992000 = Num 9007199254740992000"
    using to_double_round [of 10 9007199254740992000] by simp
  have b: "parseInt ''Wed, 21 Oct 2015 07:28:00 GMT'' = NaN"
    by (simp add: parseInt_def is_space_def digit_value_def upt_conv_Cons Let_def)
  have "to_double 2 = Num 2" "to_double 2000 = Num 2000"
    by (simp_all add: to_double_small)
  then have c: "times_1000 (parseInt ''2.5'') = Num 2000"
    by (simp add: parseInt_def is_space_def digit_value_def upt_conv_Cons Let_def)
  show ?thesis
    by (simp add: client_defs trace_defs request_loop.simps local_client_def signed_in_def
        respond_def a a' b c)
qed

text \<open>
  C3, amended. On an attempt that is not the last, a 429 response whose \<^verbatim>\<open>Retry-After\<close>
  header is the decimal text of a natural number \<open>n\<close> with \<open>n * 1000\<close> below \<open>2 ^ 53\<close> is
  followed by exactly one wait of \<open>n * 1000\<close> ms and then the next attempt (the exponential
  delay is not used for that wait); a 429 response without the header or with an empty one,
  and every response with status 500 or above, is followed by exactly one wait of
  \<open>2 ^ attempt * 1000\<close> ms and then the next attempt, for every attempt up to 1014 (from
  where on the double arithmetic overflows).
\<close>

theorem retry_delays:
  assumes "fetch attempt = Responds r" and "attempt < retries"
  shows "(status r = 429 \<and> retry_after r = Some (show_nat n) \<and> int n * 1000 < 2 ^ 53 \<longrightarrow>
            request_loop fetch url config retries attempt w =
            request_loop fetch url config retries (Suc attempt)
              (sleep (Num (int n * 1000)) (emit (FetchCall url config) w)))
       \<and> (status r = 429 \<and> (retry_after r = None \<or> retry_after r = Some []) \<and> attempt \<le> 1014 \<longrightarrow>
            request_loop fetch url config retries attempt w =
            request_loop fetch url config retries (Suc attempt)
              (sleep (Num (2 ^ attempt * 1000)) (emit (FetchCall url config) w)))
       \<and> (status r \<ge> 500 \<and> attempt \<le> 1014 \<longrightarrow>
            request_loop fetch url config retries attempt w =
            request_loop fetch url config retries (Suc attempt)
              (sleep (Num (2 ^ attempt * 1000)) (emit (FetchCall url config) w)))"
proof -
  let ?w1 = "emit (FetchCall url config) w"
  from assms have le: "attempt \<le> retries" by simp
  have a: "request_loop fetch url config retries attempt w =
           request_loop fetch url config retries (Suc attempt) (sleep (Num (int n * 1000)) ?w1)"
    if "status r = 429" "retry_after r = Some (show_nat n)" "int n * 1000 < 2 ^ 53"
  proof -
    have "try_block r retries attempt ?w1 = (Continue, sleep (Num (int n * 1000)) ?w1)"
      using that(1,2) assms(2) times_1000_exact [OF that(3)]
      by (simp add: try_block_def rate_limit_delay_def show_nat_nonempty parseInt_show_nat)
    then have "attempt_body (fetch attempt) url config retries attempt w
               = (Continue, sleep (Num (int n * 1000)) ?w1)"
      using assms(1) by (simp add: attempt_body_def)
    with le show ?thesis by (rule request_loop_Continue)
  qed
  have b: "request_loop fetch url config retries attempt w =
           request_loop fetch url config retries (Suc attempt) (sleep (Num (2 ^ attempt * 1000)) ?w1)"
    if "status r = 429" "retry_after r = None \<or> retry_after r = Some []" "attempt \<le> 1014"
  proof -
    have "rate_limit_delay (retry_after r) attempt = Num (2 ^ attempt * 1000)"
      using that(2) exponential_delay_exact [OF that(3)] by (auto simp: rate_limit_delay_def)
    then have "try_block r retries attempt ?w1 = (Continue, sleep (Num (2 ^ attempt * 1000)) ?w1)"
      using that(1) assms(2) by (simp add: try_block_def)
    then have "attempt_body (fetch attempt) url config retries attempt w
               = (Continue, sleep (Num (2 ^ attempt * 1000)) ?w1)"
      using assms(1) by (simp add: attempt_body_def)
    with le show ?thesis by (rule request_loop_Continue)
  qed
  have c: "request_loop fetch url config retries attempt w =
           request_loop fetch url config retries (Suc attempt) (sleep (Num (2 ^ attempt * 1000)) ?w1)"
    if "status r \<ge> 500" "attempt \<le> 1014"
  proof -
    have "try_block r retries attempt ?w1 = (Continue, sleep (Num (2 ^ attempt * 1000)) ?w1)"
      using that(1) assms(2) exponential_delay_exact [OF that(2)] by (simp add: try_block_def)
    then have "attempt_body (fetch attempt) url config retries attempt w
               = (Continue, sleep (Num (2 ^ attempt * 1000)) ?w1)"
      using assms(1) by (simp add: attempt_body_def)
    with le show ?thesis by (rule request_loop_Continue)
  qed
  from a b c show ?thesis by blast
qed

text \<open>
  C3, amended, at concrete inputs: a server answering 429 with \<^verbatim>\<open>Retry-After: 2\<close> makes the
  call wait 2000 ms twice; a server answering 429 without the header, or 503, makes it wait
  2000 ms and 4000 ms.
\<close>

theorem retry_delays_witness:
  "delays (snd (request_loop (\<lambda>attempt. respond 429 ''Too Many Requests'' (Some ''2'') Unparseable)
                  ''/tasks'' logout_init 3 1 signed_in)) = [Num 2000, Num 2000]
   \<and> delays (snd (request_loop (\<lambda>attempt. respond 429 ''Too Many Requests'' None Unparseable)
                  ''/tasks'' logout_init 3 1 signed_in)) = [Num 2000, Num 4000]
   \<and> delays (snd (request_loop (\<lambda>attempt. respond 503 ''Service Unavailable'' None Unparseable)
                  ''/tasks'' logout_init 3 1 signed_in)) = [Num 2000, Num 4000]"
proof -
  let ?A = "\<lambda>attempt::nat. respond 429 ''Too Many Requests'' (Some ''2'') Unparseable"
  let ?B = "\<lambda>attempt::nat. respond 429 ''Too Many Requests'' None Unparseable"
  let ?C = "\<lambda>attempt::nat. respond 503 ''Service Unavailable'' None Unparseable"
  let ?w1 = "emit (FetchCall ''/tasks'' logout_init) signed_in"
  have two: "show_nat 2 = ''2''"
    by (simp add: show_nat.simps digit_char_def)
  have p: "times_1000 (parseInt ''2'') = Num 2000"
    using parseInt_show_nat [of 2] times_1000_exact [of 2] by (simp add: two)
  have lt: "(1::nat) < 3" by simp
  have a: "request_loop ?A ''/tasks'' logout_init 3 1 signed_in
           = request_loop ?A ''/tasks'' logout_init 3 (Suc 1) (sleep (Num (int 2 * 1000)) ?w1)"
    using retry_delays [of ?A 1 _ 3 2 "''/tasks''" logout_init signed_in, OF _ lt]
    by (simp add: respond_def two)
  have b: "request_loop ?B ''/tasks'' logout_init 3 1 signed_in
           = request_loop ?B ''/tasks'' logout_init 3 (Suc 1) (sleep (Num (2 ^ 1 * 1000)) ?w1)"
    using retry_delays [of ?B 1 _ 3 2 "''/tasks''" logout_init signed_in, OF _ lt]
    by (simp add: respond_def)
  have c: "request_loop ?C ''/tasks'' logout_init 3 1 signed_in
           = request_loop ?C ''/tasks'' logout_init 3 (Suc 1) (sleep (Num (2 ^ 1 * 1000)) ?w1)"
    using retry_delays [of ?C 1 _ 3 2 "''/tasks''" logout_init signed_in, OF _ lt]
    by (simp add: respond_def)
  have "delays (snd (request_loop ?A ''/tasks'' logout_init 3 (Suc 1) (sleep (Num (int 2 * 1000)) ?w1)))
        = [Num 2000, Num 2000]"
    by (simp add: client_defs trace_defs request_loop.simps signed_in_def respond_def p)
  moreover have "delays (snd (request_loop ?B ''/tasks'' logout_init 3 (Suc 1) (sleep (Num (2 ^ 1 * 1000)) ?w1)))
        = [Num 2000, Num 4000]"
    by (simp add: client_defs trace_defs request_loop.simps signed_in_def respond_def
        exponential_delay_first)
  moreover have "delays (snd (request_loop ?C ''/tasks'' logout_init 3 (Suc 1) (sleep (Num (2 ^ 1 * 1000)) ?w1)))
        = [Num 2000, Num 4000]"
    by (simp add: client_defs trace_defs request_loop.simps signed_in_def respond_def
        exponential_delay_first)
  ultimately show ?thesis
    by (simp only: a b c)
qed

subsection \<open>Client errors\<close>

text \<open>
  C4. A 404 response whose JSON body carries the server's message \<^verbatim>\<open>Project not found\<close> is
  not thrown on the attempt that receives it: the message does not contain \<^verbatim>\<open>HTTP 4\<close>, so
  the \<^verbatim>\<open>catch\<close> block retries. The call makes three attempts, waits 2000 ms and 4000 ms, and
  only then throws the server's message.
\<close>

theorem not_found_with_server_message_is_retried:
  "fst (get local_client (\<lambda>attempt. respond 404 ''Not Found'' None (Parsed (JsonValue (Some ''Project not found'') ()))) ''/projects/7'' signed_in)
     = Threw (Error ''Project not found'')
   \<and> fetch_calls (snd (get local_client (\<lambda>attempt. respond 404 ''Not Found'' None (Parsed (JsonValue (Some ''Project not found'') ()))) ''/projects/7'' signed_in)) = 3
   \<and> delays (snd (get local_client (\<lambda>attempt. respond 404 ''Not Found'' None (Parsed (JsonValue (Some ''Project not found'') ()))) ''/projects/7'' signed_in)) = [Num 2000, Num 4000]"
  by (simp add: client_defs trace_defs request_loop.simps local_client_def signed_in_def respond_def
      exponential_delay_first)

subsection \<open>Unauthorized responses\<close>

text \<open>
  C5, as stated, fails: when the server answers 401 on every attempt, one call makes three
  attempts and removes the stored user and sets the location to the login entry point
  three times before it throws.
\<close>

theorem unauthorized_repeated_counterexample:
  "fst (get local_client (\<lambda>attempt. respond 401 ''Unauthorized'' None Unparseable) ''/projects'' signed_in)
     = Threw (Error ''Unauthorized'')
   \<and> fetch_calls (snd (get local_client (\<lambda>attempt. respond 401 ''Unauthorized'' None Unparseable) ''/projects'' signed_in)) = 3
   \<and> user_removals (snd (get local_client (\<lambda>attempt. respond 401 ''Unauthorized'' None Unparseable) ''/projects'' signed_in)) = 3
   \<and> login_redirects (snd (get local_client (\<lambda>attempt. respond 401 ''Unauthorized'' None Unparseable) ''/projects'' signed_in)) = 3"
  by (simp add: client_defs trace_defs request_loop.simps local_client_def signed_in_def respond_def
      exponential_delay_first)

text \<open>
  C5, amended. An attempt that receives a 401 removes the stored user, sets the location to
  \<^verbatim>\<open>/login\<close> (once for that response) and raises \<^verbatim>\<open>Unauthorized\<close> without reading the body. On
  the last attempt the error is logged and thrown to the caller; on an earlier attempt the
  call waits \<^verbatim>\<open>Math.pow(2, attempt) * 1000\<close> ms, which is \<open>2 ^ attempt * 1000\<close> for every
  attempt up to 1014, and makes the next attempt.
\<close>

theorem unauthorized_attempt:
  assumes "fetch attempt = Responds r" and "status r = 401" and "attempt \<le> retries"
  shows "request_loop fetch url config retries attempt w =
           (if attempt < retries
            then request_loop fetch url config retries (Suc attempt)
                   (sleep (exponential_delay attempt)
                     (set_href ''/login'' (removeItem ''user'' (emit (FetchCall url config) w))))
            else (Threw (Error ''Unauthorized''),
                  console_error (Error ''Unauthorized'')
                    (set_href ''/login'' (removeItem ''user'' (emit (FetchCall url config) w)))))
         \<and> (attempt \<le> 1014 \<longrightarrow> exponential_delay attempt = Num (2 ^ attempt * 1000))"
proof -
  let ?w2 = "set_href ''/login'' (removeItem ''user'' (emit (FetchCall url config) w))"
  have t: "try_block r retries attempt (emit (FetchCall url config) w)
           = (Exit (Threw (Error ''Unauthorized'')), ?w2)"
    using assms(2) by (simp add: try_block_def)
  have n: "name (Error ''Unauthorized'') \<noteq> ''TypeError''" "message (Error ''Unauthorized'') = ''Unauthorized''"
    by (simp_all add: Error_def)
  have loop: "request_loop fetch url config retries attempt w =
           (if attempt < retries
            then request_loop fetch url config retries (Suc attempt)
                   (sleep (exponential_delay attempt)
                     (set_href ''/login'' (removeItem ''user'' (emit (FetchCall url config) w))))
            else (Threw (Error ''Unauthorized''),
                  console_error (Error ''Unauthorized'')
                    (set_href ''/login'' (removeItem ''user'' (emit (FetchCall url config) w)))))"
  proof (cases "attempt < retries")
    case True
    then have "catch_block (Error ''Unauthorized'') retries attempt ?w2
               = (Continue :: 'a step, sleep (exponential_delay attempt) ?w2)"
      using n by (simp add: catch_block_def unauthorized_not_client_error)
    with t assms(1) have "attempt_body (fetch attempt) url config retries attempt w
               = (Continue, sleep (exponential_delay attempt) ?w2)"
      by (simp add: attempt_body_def)
    with assms(3) True show ?thesis by (simp add: request_loop_Continue)
  next
    case False
    with assms(3) have "attempt = retries" by simp
    then have "catch_block (Error ''Unauthorized'') retries attempt ?w2
               = (Exit (Threw (Error ''Unauthorized'')) :: 'a step, console_error (Error ''Unauthorized'') ?w2)"
      using n by (simp add: catch_block_def)
    with t assms(1) have "attempt_body (fetch attempt) url config retries attempt w
               = (Exit (Threw (Error ''Unauthorized'')), console_error (Error ''Unauthorized'') ?w2)"
      by (simp add: attempt_body_def)
    with assms(3) False show ?thesis by (simp add: request_loop_Exit)
  qed
  from loop exponential_delay_exact [of attempt] show ?thesis by blast
qed

text \<open>
  C5, amended, at a concrete input: a 401 on the third of three attempts.
\<close>

theorem unauthorized_attempt_witness:
  "request_loop (\<lambda>attempt. respond 401 ''Unauthorized'' None Unparseable) ''/projects'' logout_init 3 3 signed_in
     = (Threw (Error ''Unauthorized''),
        console_error (Error ''Unauthorized'')
          (set_href ''/login'' (removeItem ''user'' (emit (FetchCall ''/projects'' logout_init) signed_in))))"
proof -
  have le: "(3::nat) \<le> 3" by simp
  show ?thesis
    using unauthorized_attempt [of "\<lambda>attempt. respond 401 ''Unauthorized'' None Unparseable" 3 _ 3
        "''/projects''" logout_init signed_in, OF _ _ le, THEN conjunct1]
    by (simp add: respond_def)
qed

subsection \<open>Bodies that are not JSON\<close>

text \<open>
  C6, as stated, fails: a 200 response whose body is not JSON is retried (three attempts,
  waits of 2000 ms and 4000 ms) before \<^verbatim>\<open>HTTP 200: OK\<close> is thrown; and a 404 whose body is not
  JSON ends the call with the same error as a 404 whose JSON body has no message.
\<close>

theorem malformed_body_counterexample:
  "fst (get local_client (\<lambda>attempt. respond 200 ''OK'' None Unparseable) ''/projects'' signed_in)
     = Threw (Error ''HTTP 200: OK'')
   \<and> fetch_calls (snd (get local_client (\<lambda>attempt. respond 200 ''OK'' None Unparseable) ''/projects'' signed_in)) = 3
   \<and> delays (snd (get local_client (\<lambda>attempt. respond 200 ''OK'' None Unparseable) ''/projects'' signed_in))
       = [Num 2000, Num 4000]
   \<and> fst (get local_client (\<lambda>attempt. respond 404 ''Not Found'' None Unparseable) ''/projects/7'' signed_in)
     = fst (get local_client (\<lambda>attempt. respond 404 ''Not Found'' None (Parsed (JsonValue None ()))) ''/projects/7'' signed_in)"
  by (simp add: client_defs trace_defs request_loop.simps local_client_def signed_in_def respond_def
      show_nat.simps digit_char_def exponential_delay_first)

text \<open>
  C6, amended. When an attempt reads the body of a response (the status is not 401, and
  not 429 or 5xx on an attempt before the last) and the body is not JSON, the attempt raises
  the plain error \<^verbatim>\<open>HTTP <status>: <statusText>\<close>. That error is logged and thrown at once when
  the attempt is the last or the message passes the \<^verbatim>\<open>catch\<close> block's test for a client
  error; otherwise the call waits \<^verbatim>\<open>Math.pow(2, attempt) * 1000\<close> ms, which is
  \<open>2 ^ attempt * 1000\<close> for every attempt up to 1014, and makes the next attempt. A
  response that is not ok, not 429 and below 500 yields the same result as one whose JSON
  body has no message.
\<close>

theorem malformed_body_attempt:
  assumes "fetch attempt = Responds r" and "json_body r = Unparseable" and "status r \<noteq> 401"
    and "attempt \<le> retries" and "attempt < retries \<longrightarrow> status r \<noteq> 429 \<and> status r < 500"
  shows "request_loop fetch url config retries attempt w =
           (if attempt = retries \<or> client_error_message (http_message r)
            then (Threw (Error (http_message r)),
                  console_error (Error (http_message r)) (emit (FetchCall url config) w))
            else request_loop fetch url config retries (Suc attempt)
                   (sleep (exponential_delay attempt) (emit (FetchCall url config) w)))
         \<and> (\<not> ok r \<and> status r \<noteq> 429 \<and> status r < 500 \<longrightarrow>
              try_block (r\<lparr>json_body := Parsed (JsonValue None p)\<rparr>) retries attempt w
              = try_block r retries attempt w)
         \<and> (attempt \<le> 1014 \<longrightarrow> exponential_delay attempt = Num (2 ^ attempt * 1000))"
proof -
  let ?w1 = "emit (FetchCall url config) w"
  let ?e = "Error (http_message r)"
  have t: "try_block r retries attempt ?w1 = (Exit (Threw ?e), ?w1)"
    using assms(2,3,5) by (auto simp: try_block_def)
  have n: "name ?e \<noteq> ''TypeError''" "message ?e = http_message r"
    by (simp_all add: Error_def)
  have loop: "request_loop fetch url config retries attempt w =
           (if attempt = retries \<or> client_error_message (http_message r)
            then (Threw ?e, console_error ?e ?w1)
            else request_loop fetch url config retries (Suc attempt)
                   (sleep (exponential_delay attempt) ?w1))"
  proof (cases "attempt = retries \<or> client_error_message (http_message r)")
    case True
    then have "catch_block ?e retries attempt ?w1 = (Exit (Threw ?e) :: 'a step, console_error ?e ?w1)"
      using n by (simp add: catch_block_def)
    with t assms(1) have "attempt_body (fetch attempt) url config retries attempt w
               = (Exit (Threw ?e), console_error ?e ?w1)"
      by (simp add: attempt_body_def)
    with assms(4) True show ?thesis by (simp add: request_loop_Exit)
  next
    case False
    with assms(4) have lt: "attempt < retries" by simp
    with False have "catch_block ?e retries attempt ?w1
               = (Continue :: 'a step, sleep (exponential_delay attempt) ?w1)"
      using n by (simp add: catch_block_def)
    with t assms(1) have "attempt_body (fetch attempt) url config retries attempt w
               = (Continue, sleep (exponential_delay attempt) ?w1)"
      by (simp add: attempt_body_def)
    with assms(4) False show ?thesis by (simp add: request_loop_Continue)
  qed
  have same: "try_block (r\<lparr>json_body := Parsed (JsonValue None p)\<rparr>) retries attempt w
              = try_block r retries attempt w"
    if "\<not> ok r" "status r \<noteq> 429" "status r < 500"
    using that assms(2,3) by (simp add: try_block_def ok_def http_message_def message_or_def)
  from loop same exponential_delay_exact [of attempt] show ?thesis by blast
qed

text \<open>
  C6, amended, at concrete inputs: the first attempt of three receives 200 with a body that
  is not JSON (retried after 2000 ms), or 404 with such a body (thrown at once).
\<close>

theorem malformed_body_attempt_witness:
  "request_loop (\<lambda>attempt. respond 200 ''OK'' None Unparseable) ''/projects'' logout_init 3 1 signed_in
     = request_loop (\<lambda>attempt. respond 200 ''OK'' None Unparseable) ''/projects'' logout_init 3 (Suc 1)
         (sleep (Num 2000) (emit (FetchCall ''/projects'' logout_init) signed_in))
   \<and> request_loop (\<lambda>attempt. respond 404 ''Not Found'' None Unparseable) ''/projects/7'' logout_init 3 1 signed_in
     = (Threw (Error ''HTTP 404: Not Found''),
        console_error (Error ''HTTP 404: Not Found'') (emit (FetchCall ''/projects/7'' logout_init) signed_in))"
proof -
  have le: "(1::nat) \<le> 3" by simp
  have nums: "show_nat 200 = ''200''" "show_nat 404 = ''404''"
    by (simp_all add: show_nat.simps digit_char_def)
  have a: "request_loop (\<lambda>attempt. respond 200 ''OK'' None Unparseable) ''/projects'' logout_init 3 1 signed_in
     = request_loop (\<lambda>attempt. respond 200 ''OK'' None Unparseable) ''/projects'' logout_init 3 (Suc 1)
         (sleep (Num 2000) (emit (FetchCall ''/projects'' logout_init) signed_in))"
    using malformed_body_attempt [of "\<lambda>attempt. respond 200 ''OK'' None Unparseable" 1 _ 3
        "''/projects''" logout_init signed_in "()", OF _ _ _ le]
    by (simp add: respond_def http_message_def client_error_message_def nums exponential_delay_first)
  have b: "request_loop (\<lambda>attempt. respond 404 ''Not Found'' None Unparseable) ''/projects/7'' logout_init 3 1 signed_in
     = (Threw (Error ''HTTP 404: Not Found''),
        console_error (Error ''HTTP 404: Not Found'') (emit (FetchCall ''/projects/7'' logout_init) signed_in))"
    using malformed_body_attempt [of "\<lambda>attempt. respond 404 ''Not Found'' None Unparseable" 1 _ 3
        "''/projects/7''" logout_init signed_in "()", OF _ _ _ le]
    by (simp add: respond_def http_message_def client_error_message_def nums exponential_delay_first)
  from a b show ?thesis by (rule conjI)
qed

section \<open>What the public methods send\<close>

lemma fetch_configs_simps:
  "fetch_configs (emit (FetchCall u c) w) = fetch_configs w @ [c]"
  "fetch_configs (sleep d w) = fetch_configs w"
  "fetch_configs (console_error e w) = fetch_configs w"
  "fetch_configs (removeItem k w) = fetch_configs w"
  "fetch_configs (set_href h w) = fetch_configs w"
  by (simp_all add: trace_defs)

lemma try_block_fetch_configs:
  "fetch_configs (snd (try_block r retries a w)) = fetch_configs w"
  by (simp add: try_block_def fetch_configs_simps split: json_result.splits json.splits)

lemma catch_block_fetch_configs:
  "fetch_configs (snd (catch_block e retries a w)) = fetch_configs w"
  by (simp add: catch_block_def fetch_configs_simps)

lemma attempt_body_fetch_configs:
  "fetch_configs (snd (attempt_body result url config retries a w)) = fetch_configs w @ [config]"
proof (cases result)
  case (Rejects e)
  then show ?thesis
    by (simp add: attempt_body_cases catch_block_fetch_configs fetch_configs_simps)
next
  case (Responds r)
  obtain s w2 where t: "try_block r retries a (emit (FetchCall url config) w) = (s, w2)"
    by (cases "try_block r retries a (emit (FetchCall url config) w)")
  have "fetch_configs w2 = fetch_configs w @ [config]"
    using try_block_fetch_configs [of r retries a "emit (FetchCall url config) w"] t
    by (simp add: fetch_configs_simps)
  with Responds t show ?thesis
    by (simp add: attempt_body_cases catch_block_fetch_configs split: step.splits outcome.splits)
qed

lemma request_loop_fetch_configs:
  "\<exists>k. k \<le> Suc retries - a \<and>
       fetch_configs (snd (request_loop fetch url config retries a w)) = fetch_configs w @ replicate k config"
proof (induction fetch url config retries a w rule: request_loop.induct)
  case (1 fetch url config retries attempt w)
  show ?case
  proof (cases "attempt \<le> retries")
    case False
    then show ?thesis by (simp add: request_loop.simps [of fetch url config retries attempt])
  next
    case True
    obtain s w' where b: "attempt_body (fetch attempt) url config retries attempt w = (s, w')"
      by (cases "attempt_body (fetch attempt) url config retries attempt w")
    have n: "fetch_configs w' = fetch_configs w @ [config]"
      using attempt_body_fetch_configs [of "fetch attempt" url config retries attempt w] b by simp
    show ?thesis
    proof (cases s)
      case Continue
      from "1.IH" [OF True b [symmetric] Continue]
      obtain k where k: "k \<le> Suc retries - Suc attempt"
        "fetch_configs (snd (request_loop fetch url config retries (Suc attempt) w'))
           = fetch_configs w' @ replicate k config"
        by blast
      have "fetch_configs (snd (request_loop fetch url config retries attempt w))
            = fetch_configs w @ replicate (Suc k) config"
        using True b Continue k(2) n by (simp add: request_loop_Continue)
      moreover have "Suc k \<le> Suc retries - attempt"
        using k(1) True by simp
      ultimately show ?thesis by blast
    next
      case (Exit out)
      have "fetch_configs (snd (request_loop fetch url config retries attempt w))
            = fetch_configs w @ replicate (Suc 0) config"
        using True b Exit n by (simp add: request_loop_Exit)
      moreover have "Suc 0 \<le> Suc retries - attempt"
        using True by simp
      ultimately show ?thesis by blast
    qed
  qed
qed

lemma request_fetch_configs:
  "\<exists>k \<le> 3. fetch_configs (snd (request client fetch endpoint (method_options m b) 3 w))
      = fetch_configs w @ replicate k
          \<lparr>http_method = Some m, body = b,
            headers = Some [(''Content-Type'', ''application/json'')],
            credentials = Some ''include''\<rparr>"
  using request_loop_fetch_configs [of 3 1 fetch "baseURL client @ endpoint"
      "request_config (method_options m b)" w]
  by (simp add: request_def request_config_def method_options_def getAuthHeaders_def spread_def)

text \<open>
  C7. Every call of \<^verbatim>\<open>fetch\<close> made by \<^verbatim>\<open>get\<close>, \<^verbatim>\<open>post\<close>, \<^verbatim>\<open>put\<close>, \<^verbatim>\<open>patch\<close> and \<^verbatim>\<open>delete\<close> (at most
  three per call) is made with the same configuration: \<^verbatim>\<open>credentials: 'include'\<close>, the single
  header \<^verbatim>\<open>Content-Type\<close> (so no \<^verbatim>\<open>Authorization\<close> header), and as body exactly the caller's
  payload as \<^verbatim>\<open>JSON.stringify\<close> renders it, or no body for \<^verbatim>\<open>get\<close> and \<^verbatim>\<open>delete\<close>: the client adds
  no field of its own.
\<close>

theorem requests_carry_cookie_credentials_only:
  "(\<exists>k \<le> 3. fetch_configs (snd (get client fetch endpoint w))
      = fetch_configs w @ replicate k
          \<lparr>http_method = Some ''GET'', body = None,
            headers = Some [(''Content-Type'', ''application/json'')],
            credentials = Some ''include''\<rparr>)
   \<and> (\<exists>k \<le> 3. fetch_configs (snd (post stringify client fetch endpoint payload w))
      = fetch_configs w @ replicate k
          \<lparr>http_method = Some ''POST'', body = Some (stringify payload),
            headers = Some [(''Content-Type'', ''application/json'')],
            credentials = Some ''include''\<rparr>)
   \<and> (\<exists>k \<le> 3. fetch_configs (snd (put stringify client fetch endpoint payload w))
      = fetch_configs w @ replicate k
          \<lparr>http_method = Some ''PUT'', body = Some (stringify payload),
            headers = Some [(''Content-Type'', ''application/json'')],
            credentials = Some ''include''\<rparr>)
   \<and> (\<exists>k \<le> 3. fetch_configs (snd (patch stringify client fetch endpoint payload w))
      = fetch_configs w @ replicate k
          \<lparr>http_method = Some ''PATCH'', body = Some (stringify payload),
            headers = Some [(''Content-Type'', ''application/json'')],
            credentials = Some ''include''\<rparr>)
   \<and> (\<exists>k \<le> 3. fetch_configs (snd (delete client fetch endpoint w))
      = fetch_configs w @ replicate k
          \<lparr>http_method = Some ''DELETE'', body = None,
            headers = Some [(''Content-Type'', ''application/json'')],
            credentials = Some ''include''\<rparr>)"
  unfolding get_def post_def put_def patch_def delete_def
  by (intro conjI request_fetch_configs)

section \<open>Routes and logout\<close>

text \<open>
  C9. With \<^verbatim>\<open>requireManager\<close> or the legacy \<^verbatim>\<open>requireAdmin\<close> set and the auth context not
  loading: a logged-in user gets the children exactly when the role is \<^verbatim>\<open>Manager\<close> or
  \<^verbatim>\<open>Admin\<close> and is sent to \<^verbatim>\<open>/dashboard\<close> otherwise; with no user the route sends to \<^verbatim>\<open>/login\<close>;
  and the two props can be exchanged without changing what is rendered.
\<close>

theorem protected_route_manager_access:
  assumes "requireManager \<or> requireAdmin" and "\<not> loading ctx"
  shows "(user ctx = Some u \<longrightarrow>
            ProtectedRoute children requireAdmin requireManager ctx =
              (if role u = ''Manager'' \<or> role u = ''Admin'' then Children children
               else Navigate ''/dashboard''))
       \<and> (user ctx = None \<longrightarrow>
            ProtectedRoute children requireAdmin requireManager ctx = Navigate ''/login'')
       \<and> ProtectedRoute children requireAdmin requireManager ctx =
            ProtectedRoute children requireManager requireAdmin ctx"
  using assms by (auto simp: ProtectedRoute_def split: option.splits)

text \<open>
  C9, at concrete inputs: an Employee and a Manager on the manager route, and no user.
\<close>

theorem protected_route_manager_access_witness:
  "ProtectedRoute ''ManagerDashboard'' False True
     \<lparr>user = Some \<lparr>role = ''Employee''\<rparr>, loading = False, window = signed_in\<rparr> = Navigate ''/dashboard''
   \<and> ProtectedRoute ''ManagerDashboard'' True False
     \<lparr>user = Some \<lparr>role = ''Manager''\<rparr>, loading = False, window = signed_in\<rparr> = Children ''ManagerDashboard''
   \<and> ProtectedRoute ''ManagerDashboard'' False True
     \<lparr>user = None, loading = False, window = signed_in\<rparr> = Navigate ''/login''"
proof -
  have a: "ProtectedRoute ''ManagerDashboard'' False True
     \<lparr>user = Some \<lparr>role = ''Employee''\<rparr>, loading = False, window = signed_in\<rparr> = Navigate ''/dashboard''"
    using protected_route_manager_access [of True False
        "\<lparr>user = Some \<lparr>role = ''Employee''\<rparr>, loading = False, window = signed_in\<rparr>"
        "\<lparr>role = ''Employee''\<rparr>" "''ManagerDashboard''"]
    by simp
  have b: "ProtectedRoute ''ManagerDashboard'' True False
     \<lparr>user = Some \<lparr>role = ''Manager''\<rparr>, loading = False, window = signed_in\<rparr> = Children ''ManagerDashboard''"
    using protected_route_manager_access [of False True
        "\<lparr>user = Some \<lparr>role = ''Manager''\<rparr>, loading = False, window = signed_in\<rparr>"
        "\<lparr>role = ''Manager''\<rparr>" "''ManagerDashboard''"]
    by simp
  have c: "ProtectedRoute ''ManagerDashboard'' False True
     \<lparr>user = None, loading = False, window = signed_in\<rparr> = Navigate ''/login''"
    using protected_route_manager_access [of True False
        "\<lparr>user = None, loading = False, window = signed_in\<rparr>" _ "''ManagerDashboard''"]
    by simp
  from a b c show ?thesis by simp
qed

text \<open>
  C10. Whatever the \<^verbatim>\<open>fetch\<close> of \<^verbatim>\<open>/auth/logout\<close> does (any response, or a rejection, which is
  only logged), \<^verbatim>\<open>logout\<close> ends with the \<^verbatim>\<open>user\<close> entry removed from local storage, the user
  state null and the location \<^verbatim>\<open>/login\<close>, the removal coming before the navigation.
\<close>

theorem logout_always_clears_user:
  "localStorage (window (logout result ctx)) ''user'' = None
   \<and> user (logout result ctx) = None
   \<and> href (window (logout result ctx)) = ''/login''
   \<and> events (window (logout result ctx)) =
       events (window ctx) @ [FetchCall ''/auth/logout'' logout_init]
         @ (case result of Rejects error \<Rightarrow> [ConsoleError error] | Responds r \<Rightarrow> [])
         @ [RemoveItem ''user'', SetHref ''/login'']"
  by (cases result) (simp_all add: logout_def Let_def trace_defs)

section \<open>A failed move leaves the board as it was\<close>

lemma filter_insert_at_same:
  "filter (\<lambda>x. task_status x = task_status t) (insert_at t i ts) =
     take i (filter (\<lambda>x. task_status x = task_status t) ts) @ t
       # drop i (filter (\<lambda>x. task_status x = task_status t) ts)"
proof (induction ts arbitrary: i)
  case Nil
  then show ?case by simp
next
  case (Cons x xs)
  show ?case
  proof (cases i)
    case 0
    with Cons.IH [of 0] show ?thesis by simp
  next
    case (Suc j)
    with Cons.IH [of j] Cons.IH [of "Suc j"] show ?thesis by simp
  qed
qed

lemma filter_insert_at_other:
  "s \<noteq> task_status t \<Longrightarrow>
     filter (\<lambda>x. task_status x = s) (insert_at t i ts) = filter (\<lambda>x. task_status x = s) ts"
  by (induction ts arbitrary: i) (auto split: nat.splits)

lemma filter_insert_at:
  "filter (\<lambda>x. task_status x = s) (insert_at t i ts) =
     (if s = task_status t
      then take i (filter (\<lambda>x. task_status x = s) ts) @ t # drop i (filter (\<lambda>x. task_status x = s) ts)
      else filter (\<lambda>x. task_status x = s) ts)"
  by (simp add: filter_insert_at_same filter_insert_at_other)

lemma column_insert_at:
  "column (insert_at t i ts) s =
     (if s = task_status t then take i (column ts s) @ t # drop i (column ts s) else column ts s)"
  unfolding column_def by (rule filter_insert_at)

lemma column_remove_task: "column (remove_task tid ts) s = remove_task tid (column ts s)"
  by (induction ts) (simp_all add: column_def remove_task_def)

lemma remove_task_inserted:
  assumes "task_id t = tid"
  shows "remove_task tid (take i xs @ t # drop i xs) = remove_task tid xs"
proof -
  have "filter P (take i xs) @ filter P (drop i xs) = filter P xs" for P :: "task \<Rightarrow> bool"
    by (metis append_take_drop_id filter_append)
  with assms show ?thesis
    by (simp add: remove_task_def)
qed

lemma remove_task_twice: "remove_task tid (remove_task tid xs) = remove_task tid xs"
  by (simp add: remove_task_def)

lemma column_after_removal_of_moved:
  "column (remove_task (task_id t) (optimistic_move t s' j ts)) s = remove_task (task_id t) (column ts s)"
  by (simp add: optimistic_move_def column_remove_task column_insert_at remove_task_inserted
      remove_task_twice)

lemma reinsert_at_position:
  assumes "distinct (map task_id xs)" and "x \<in> set xs"
  shows "take (position (task_id x) xs) (remove_task (task_id x) xs) @ x
           # drop (position (task_id x) xs) (remove_task (task_id x) xs) = xs"
  using assms
proof (induction xs)
  case Nil
  then show ?case by simp
next
  case (Cons y ys)
  show ?case
  proof (cases "task_id y = task_id x")
    case True
    with Cons.prems have "y = x" by (auto simp: image_iff)
    moreover have "\<forall>z \<in> set ys. task_id z \<noteq> task_id x"
      using Cons.prems True by (auto simp: image_iff)
    then have "remove_task (task_id x) ys = ys"
      by (simp add: remove_task_def)
    ultimately show ?thesis
      by (simp add: position_def remove_task_def)
  next
    case False
    with Cons.prems have "x \<in> set ys" by auto
    with Cons.IH Cons.prems False show ?thesis
      by (simp add: position_def remove_task_def)
  qed
qed

lemma nth_position:
  assumes "distinct (map task_id xs)" and "x \<in> set xs"
  shows "xs ! position (task_id x) xs = x"
  using assms
proof (induction xs)
  case Nil
  then show ?case by simp
next
  case (Cons y ys)
  show ?case
  proof (cases "task_id y = task_id x")
    case True
    with Cons.prems have "y = x" by (auto simp: image_iff)
    then show ?thesis by (simp add: position_def)
  next
    case False
    with Cons.prems have "x \<in> set ys" by auto
    with Cons.IH Cons.prems False show ?thesis
      by (simp add: position_def)
  qed
qed

lemma find_task_Some:
  "find_task tid ts = Some t \<Longrightarrow> t \<in> set ts \<and> task_id t = tid"
  by (auto simp: find_task_def find_Some_iff)

lemma other_columns_lack_task:
  assumes "distinct (map task_id ts)" and "t \<in> set ts" and "s \<noteq> task_status t"
  shows "remove_task (task_id t) (column ts s) = column ts s"
proof -
  have "task_id x \<noteq> task_id t" if "x \<in> set (column ts s)" for x
  proof
    assume eq: "task_id x = task_id t"
    from that have "x \<in> set ts" "task_status x = s" by (simp_all add: column_def)
    with assms(1,2) eq have "x = t" by (meson distinct_map inj_onD)
    with \<open>task_status x = s\<close> assms(3) show False by simp
  qed
  then show ?thesis by (simp add: remove_task_def)
qed

lemma rollback_restores_columns:
  assumes "distinct (map task_id ts)" and "t \<in> set ts"
  shows "column (rollback (take_snapshot t ts) (optimistic_move t s' j ts)) s = column ts s"
proof (cases "s = task_status t")
  case True
  have d: "distinct (map task_id (column ts (task_status t)))"
    using assms(1) by (simp add: column_def distinct_map_filter)
  have m: "t \<in> set (column ts (task_status t))"
    using assms(2) by (simp add: column_def)
  from True show ?thesis
    by (simp add: rollback_def take_snapshot_def column_insert_at column_after_removal_of_moved
        reinsert_at_position [OF d m])
next
  case False
  then show ?thesis
    by (simp add: rollback_def take_snapshot_def column_insert_at column_after_removal_of_moved
        other_columns_lack_task [OF assms])
qed

text \<open>
  C8. On a board whose task ids are distinct, a move of an existing task whose persist call
  fails ends with every column equal to the column before the drag (so every other task is
  where it was), with the moved task at its original index of its original column, and
  with the failure appended once to the notifications shown to the user.
\<close>

theorem failed_move_restores_board:
  assumes "distinct (map task_id (tasks b))" and "find_task taskId (tasks b) = Some t"
  shows "\<exists>b'. move taskId targetStatus targetIndex (PersistFailed failure) b = Some b'
           \<and> (\<forall>s. column (tasks b') s = column (tasks b) s)
           \<and> column (tasks b') (task_status t) ! position taskId (column (tasks b) (task_status t)) = t
           \<and> notifications b' = notifications b @ [failure]"
proof -
  let ?b' = "b\<lparr>tasks := rollback (take_snapshot t (tasks b))
                          (optimistic_move t targetStatus targetIndex (tasks b)),
               notifications := notifications b @ [failure]\<rparr>"
  from assms(2) have t: "t \<in> set (tasks b)" "task_id t = taskId"
    by (simp_all add: find_task_Some)
  have mv: "move taskId targetStatus targetIndex (PersistFailed failure) b = Some ?b'"
    using assms(2) by (simp add: move_def Let_def)
  have cols: "column (tasks ?b') s = column (tasks b) s" for s
    using rollback_restores_columns [OF assms(1) t(1)] by simp
  have d: "distinct (map task_id (column (tasks b) (task_status t)))"
    using assms(1) by (simp add: column_def distinct_map_filter)
  have m: "t \<in> set (column (tasks b) (task_status t))"
    using t(1) by (simp add: column_def)
  have "column (tasks ?b') (task_status t) ! position taskId (column (tasks b) (task_status t)) = t"
    using nth_position [OF d m] t(2) by (simp only: cols)
  with mv cols show ?thesis by simp
qed

text \<open>
  C8, at the specification's scenario 7: task 2 is dragged to \<^verbatim>\<open>Done\<close> and the persist call
  fails; the three columns still hold tasks 1, 2 and 3 and one notification is raised.
\<close>

theorem failed_move_restores_board_witness:
  "\<exists>b'. move 2 Done 0 (PersistFailed ''Server error. Please try again later.'') three_tasks = Some b'
     \<and> map task_id (column (tasks b') ToDo) = [1]
     \<and> map task_id (column (tasks b') InProgress) = [2]
     \<and> map task_id (column (tasks b') Done) = [3]
     \<and> notifications b' = [''Server error. Please try again later.'']"
proof -
  have d: "distinct (map task_id (tasks three_tasks))"
    by (simp add: three_tasks_def)
  have f: "find_task 2 (tasks three_tasks) = Some (tasks three_tasks ! 1)"
    by (simp add: three_tasks_def find_task_def)
  from failed_move_restores_board [OF d f, of Done 0 "''Server error. Please try again later.''"]
  obtain b' where b':
    "move 2 Done 0 (PersistFailed ''Server error. Please try again later.'') three_tasks = Some b'"
    "\<forall>s. column (tasks b') s = column (tasks three_tasks) s"
    "notifications b' = notifications three_tasks @ [''Server error. Please try again later.'']"
    by blast
  have "map task_id (column (tasks three_tasks) ToDo) = [1]"
    "map task_id (column (tasks three_tasks) InProgress) = [2]"
    "map task_id (column (tasks three_tasks) Done) = [3]"
    "notifications three_tasks = []"
    by (simp_all add: three_tasks_def column_def)
  with b' show ?thesis by simp
qed

end
